theory Spec2Isabelle
  imports Main "HOL-Library.Multiset"
begin

section \<open>The List component of src/components/list/List.jsx\<close>

text \<open>
  The component is a React class with three pieces of logic: the constructor, which
  prepares the optional filters; \<open>applyFilters\<close> with its recursive helper, which
  computes the rows that are shown; and the mount/unmount pair, which schedules the
  periodic fetch. The model follows the JavaScript closely.

  \<^item> A prop that may be missing is a value of \<open>'a js\<close>: \<open>Undefined\<close>, \<open>Null\<close>
    or \<open>Val x\<close>. The source distinguishes the three (\<open>!== undefined\<close> lets
    \<open>null\<close> through, a truthiness test does not).
  \<^item> The optional filter objects are mutable and shared with the caller, so they
    live in a store indexed by references. The row arrays live in a store as well:
    \<open>Array.prototype.filter\<close> allocates a new array and leaves its receiver alone.
    Arrays of references (\<open>props.optionalFilters\<close>, \<open>state.filters\<close>) are never
    updated in place by the source (\<open>map\<close> builds a new one), so they are lists.
  \<^item> A filter is a pure predicate on a row, \<open>'r \<Rightarrow> bool\<close>; it does not look at the
    index and array arguments that \<open>Array.prototype.filter\<close> also passes.
  \<^item> A TypeError of the source is the value \<open>Inl TypeError\<close>.
\<close>

subsection \<open>Values, references and the store\<close>

datatype 'a js = Undefined | Null | Val 'a

datatype error = TypeError

type_synonym ref = nat

text \<open>
  One element of \<open>props.optionalFilters\<close>. The caller supplies \<open>label\<close> and
  \<open>filter\<close>; \<open>enabled\<close> and \<open>key\<close> are properties that the object may not
  have yet (\<open>None\<close> is JavaScript's \<open>undefined\<close>).
\<close>

record 'r optionalFilter =
  label :: string
  filter_fn :: "'r \<Rightarrow> bool"
  enabled :: "bool option"
  key :: "string option"

record 'r heap =
  objs :: "ref \<Rightarrow> 'r optionalFilter"
  arrs :: "ref \<Rightarrow> 'r list"
  nextArr :: ref

text \<open>Truthiness of a property that holds a boolean or is undefined.\<close>

fun truthy :: "bool option \<Rightarrow> bool" where
  "truthy None = False"
| "truthy (Some b) = b"

subsection \<open>Strings: \<open>toLowerCase\<close> and \<open>replace(/\s/g, '')\<close>\<close>

text \<open>
  A \<open>char\<close> stands for the UTF-16 code unit of the same number, so a \<open>string\<close> is a
  JavaScript string over U+0000 .. U+00FF. In that range \<open>toLowerCase\<close> moves A-Z,
  U+00C0 .. U+00D6 and U+00D8 .. U+00DE up by 32 and leaves the rest, and \<open>\s\<close>
  matches tab, line feed, vertical tab, form feed, carriage return, space and U+00A0.
\<close>

definition isUpper :: "char \<Rightarrow> bool" where
  "isUpper c = (let n = (of_char c :: nat) in
     (65 \<le> n \<and> n \<le> 90) \<or> (192 \<le> n \<and> n \<le> 214) \<or> (216 \<le> n \<and> n \<le> 222))"

definition isWhiteSpace :: "char \<Rightarrow> bool" where
  "isWhiteSpace c = (let n = (of_char c :: nat) in
     (9 \<le> n \<and> n \<le> 13) \<or> n = 32 \<or> n = 160)"

definition lowerChar :: "char \<Rightarrow> char" where
  "lowerChar c = (if isUpper c then char_of ((of_char c :: nat) + 32) else c)"

definition toLowerCase :: "string \<Rightarrow> string" where
  "toLowerCase s = map lowerChar s"

definition removeWhiteSpace :: "string \<Rightarrow> string" where
  "removeWhiteSpace s = filter (\<lambda>c. \<not> isWhiteSpace c) s"

text \<open>The expression \<open>v.label.toLowerCase().replace(/\s/g,'')\<close> of the constructor.\<close>

definition normalize :: "string \<Rightarrow> string" where
  "normalize l = removeWhiteSpace (toLowerCase l)"

subsection \<open>Props, defaults and the component instance\<close>

text \<open>
  The props the logic reads. \<open>delayInterval\<close> is a whole number of milliseconds;
  \<open>fetchListActionCreator\<close> is an opaque callback, so only its presence is recorded;
  the callbacks of \<open>onMountOtherActionCreators\<close> are told apart by a number.
\<close>

record 'r props =
  delayInterval :: "int js"
  fetchListActionCreator :: "unit js"
  filters :: "('r \<Rightarrow> bool) list js"
  onMountOtherActionCreators :: "nat list js"
  optionalFilters :: "ref list js"

text \<open>
  \<open>List.defaultProps\<close> gives \<open>delayInterval: 10000\<close> and \<open>filters: []\<close> (and a
  title and column definitions, which the logic does not read). React fills in a
  default for every prop whose value is \<open>undefined\<close> when the element is created;
  \<open>null\<close> is kept.
\<close>

definition resolveDefaultProps :: "'r props \<Rightarrow> 'r props" where
  "resolveDefaultProps p =
     p\<lparr>delayInterval := (if delayInterval p = Undefined then Val 10000 else delayInterval p),
       filters := (if filters p = Undefined then Val [] else filters p)\<rparr>"

text \<open>
  The instance: \<open>this.props\<close>, \<open>this.state.filters\<close> and \<open>this.interval\<close>
  (\<open>None\<close> until \<open>componentDidMount\<close> assigns a timer handle).
\<close>

record 'r component =
  props :: "'r props"
  state_filters :: "ref list"
  interval :: "nat option"

subsection \<open>The constructor\<close>

text \<open>
  The callback of \<open>props.optionalFilters.map\<close>: it writes \<open>enabled\<close> and \<open>key\<close>
  into the object it is given and returns that same object.
\<close>

definition initFilter :: "'r optionalFilter \<Rightarrow> 'r optionalFilter" where
  "initFilter v = v\<lparr>enabled := Some False, key := Some (normalize (label v))\<rparr>"

fun initFilters :: "ref list \<Rightarrow> 'r heap \<Rightarrow> 'r heap" where
  "initFilters [] h = h"
| "initFilters (a # as) h = initFilters as (h\<lparr>objs := (objs h)(a := initFilter (objs h a))\<rparr>)"

text \<open>\<open>if (props.optionalFilters)\<close> is true of every array, also the empty one.\<close>

definition constructor :: "'r props \<Rightarrow> 'r heap \<Rightarrow> 'r component \<times> 'r heap" where
  "constructor p h =
     (case optionalFilters p of
        Val vs \<Rightarrow> (\<lparr>props = p, state_filters = vs, interval = None\<rparr>, initFilters vs h)
      | _ \<Rightarrow> (\<lparr>props = p, state_filters = [], interval = None\<rparr>, h))"

subsection \<open>Applying the filters\<close>

text \<open>\<open>list.filter(f)\<close>: a new array with the elements that pass, the receiver untouched.\<close>

definition array_filter :: "('r \<Rightarrow> bool) \<Rightarrow> ref \<Rightarrow> 'r heap \<Rightarrow> ref \<times> 'r heap" where
  "array_filter f list h =
     (nextArr h, h\<lparr>arrs := (arrs h)(nextArr h := filter f (arrs h list)),
                   nextArr := Suc (nextArr h)\<rparr>)"

function applyFiltersHelper :: "ref \<Rightarrow> ('r \<Rightarrow> bool) list \<Rightarrow> 'r heap \<Rightarrow> ref \<times> 'r heap" where
  "applyFiltersHelper list fs h =
     (if length fs = 0 then (list, h)
      else (case array_filter (last fs) list h of
              (list', h') \<Rightarrow> applyFiltersHelper list' (butlast fs) h'))"
  by pat_completeness auto
termination
  by (relation "measure (\<lambda>(list, fs, h). length fs)") auto

declare applyFiltersHelper.simps [simp del]

text \<open>
  \<open>this.props.filters ? [...this.props.filters] : []\<close>, then the filters of the
  enabled entries of \<open>this.state.filters\<close> (which is always an array, so the test
  \<open>if (this.state.filters)\<close> always succeeds).
\<close>

definition mandatoryFilters :: "'r component \<Rightarrow> ('r \<Rightarrow> bool) list" where
  "mandatoryFilters c = (case filters (props c) of Val fs \<Rightarrow> fs | _ \<Rightarrow> [])"

definition enabledFilters :: "'r component \<Rightarrow> 'r heap \<Rightarrow> ('r \<Rightarrow> bool) list" where
  "enabledFilters c h =
     map filter_fn (filter (\<lambda>v. truthy (enabled v)) (map (objs h) (state_filters c)))"

definition applyFilters :: "'r component \<Rightarrow> ref \<Rightarrow> 'r heap \<Rightarrow> ref \<times> 'r heap" where
  "applyFilters c list h = applyFiltersHelper list (mandatoryFilters c @ enabledFilters c h) h"

subsection \<open>Toggling an optional filter\<close>

text \<open>
  The updater passed to \<open>setState\<close>, run once (the event argument of
  \<open>handleFilterToggle\<close> is not used): it walks \<open>state.filters\<close>, negates
  \<open>enabled\<close> in place on every object whose key is \<open>===\<close> the argument, and stores
  the mapped array (the same references) back. The argument is a string, or
  \<open>None\<close> for \<open>undefined\<close>.
\<close>

definition toggleFilter :: "string option \<Rightarrow> 'r optionalFilter \<Rightarrow> 'r optionalFilter" where
  "toggleFilter k v = (if key v = k then v\<lparr>enabled := Some (\<not> truthy (enabled v))\<rparr> else v)"

fun toggleFilters :: "string option \<Rightarrow> ref list \<Rightarrow> 'r heap \<Rightarrow> 'r heap" where
  "toggleFilters k [] h = h"
| "toggleFilters k (a # as) h =
     toggleFilters k as (h\<lparr>objs := (objs h)(a := toggleFilter k (objs h a))\<rparr>)"

definition handleFilterToggle ::
  "string option \<Rightarrow> 'r component \<Rightarrow> 'r heap \<Rightarrow> 'r component \<times> 'r heap" where
  "handleFilterToggle k c h =
     (c\<lparr>state_filters := state_filters c\<rparr>, toggleFilters k (state_filters c) h)"

subsection \<open>Timers and the mount/unmount pair\<close>

text \<open>
  What the component does to the outside: the calls it makes, in order, and the
  interval timers it has armed. Time is simulated in whole milliseconds. Every timer of
  this world was armed by \<open>componentDidMount\<close>, whose callback runs
  \<open>fetchListActionCreator\<close>.
\<close>

datatype call = FetchList | OtherAction nat

record timer =
  handle :: nat
  period :: nat
  due :: nat

record world =
  calls :: "call list"
  timers :: "timer list"
  nextHandle :: nat

definition fetchCount :: "world \<Rightarrow> nat" where
  "fetchCount w = length (filter (\<lambda>c. c = FetchList) (calls w))"

text \<open>\<open>setInterval\<close> with a delay below 1 ms uses 1 ms.\<close>

definition setInterval :: "int \<Rightarrow> world \<Rightarrow> nat \<times> world" where
  "setInterval d w =
     (nextHandle w,
      w\<lparr>timers := timers w @ [\<lparr>handle = nextHandle w, period = max 1 (nat d), due = max 1 (nat d)\<rparr>],
        nextHandle := Suc (nextHandle w)\<rparr>)"

text \<open>\<open>clearInterval\<close> ignores \<open>undefined\<close> and handles that name no timer.\<close>

definition clearInterval :: "nat option \<Rightarrow> world \<Rightarrow> world" where
  "clearInterval i w =
     (case i of None \<Rightarrow> w
      | Some n \<Rightarrow> w\<lparr>timers := filter (\<lambda>t. handle t \<noteq> n) (timers w)\<rparr>)"

text \<open>Letting \<open>e\<close> milliseconds pass: each timer fires when due and every period after.\<close>

definition firings :: "nat \<Rightarrow> timer \<Rightarrow> nat" where
  "firings e t = (if e < due t then 0 else Suc ((e - due t) div period t))"

definition elapse :: "nat \<Rightarrow> timer \<Rightarrow> timer" where
  "elapse e t =
     t\<lparr>due := (if e < due t then due t - e else period t - (e - due t) mod period t)\<rparr>"

definition advance :: "nat \<Rightarrow> world \<Rightarrow> world" where
  "advance e w =
     w\<lparr>calls := calls w @ replicate (sum_list (map (firings e) (timers w))) FetchList,
       timers := map (elapse e) (timers w)\<rparr>"

text \<open>A timer armed by \<open>setInterval\<close> is due within one period, and stays so.\<close>

definition timersOk :: "world \<Rightarrow> bool" where
  "timersOk w = (\<forall>t\<in>set (timers w). 0 < due t \<and> due t \<le> period t)"

text \<open>
  The second half of \<open>componentDidMount\<close>: \<open>forEach\<close> over
  \<open>onMountOtherActionCreators\<close>, which throws on \<open>null\<close>. A result is the
  exception thrown, if any, with the instance and the world as they are at that moment:
  what was done before a throw stays done.
\<close>

type_synonym 'r outcome = "error option \<times> 'r component \<times> world"

definition mountOtherActions :: "'r component \<Rightarrow> world \<Rightarrow> 'r outcome" where
  "mountOtherActions c w =
     (case onMountOtherActionCreators (props c) of
        Undefined \<Rightarrow> (None, c, w)
      | Null \<Rightarrow> (Some TypeError, c, w)
      | Val acts \<Rightarrow> (None, c, w\<lparr>calls := calls w @ map OtherAction acts\<rparr>))"

text \<open>\<open>componentDidMount\<close>. Calling \<open>null\<close> throws; \<open>null > 0\<close> is false.\<close>

definition componentDidMount :: "'r component \<Rightarrow> world \<Rightarrow> 'r outcome" where
  "componentDidMount c w =
     (case fetchListActionCreator (props c) of
        Undefined \<Rightarrow> mountOtherActions c w
      | Null \<Rightarrow> (Some TypeError, c, w)
      | Val f \<Rightarrow>
          (let w1 = w\<lparr>calls := calls w @ [FetchList]\<rparr> in
           (case delayInterval (props c) of
              Val d \<Rightarrow>
                (if d > 0
                 then (case setInterval d w1 of
                         (i, w2) \<Rightarrow> mountOtherActions (c\<lparr>interval := Some i\<rparr>) w2)
                 else mountOtherActions c w1)
            | _ \<Rightarrow> mountOtherActions c w1)))"

definition componentWillUnmount :: "'r component \<Rightarrow> world \<Rightarrow> world" where
  "componentWillUnmount c w = clearInterval (interval c) w"

text \<open>
  Creating and mounting the component from the props the caller wrote: React resolves
  the defaults, runs the constructor and then \<open>componentDidMount\<close>.
\<close>

definition mount :: "'r props \<Rightarrow> 'r heap \<Rightarrow> world \<Rightarrow> 'r outcome" where
  "mount p h w = componentDidMount (fst (constructor (resolveDefaultProps p) h)) w"

text \<open>The array that a returned reference points to.\<close>

definition resultRows :: "ref \<times> 'r heap \<Rightarrow> 'r list" where
  "resultRows p = arrs (snd p) (fst p)"

subsection \<open>A small instance\<close>

text \<open>
  Rows are risk scores. One mandatory filter keeps the scores below 9; the optional
  filter labelled "High Risk" keeps those above 5. The caller's filter object is at
  reference 0 and the row array \<open>[1, 7, 3, 9]\<close> at array reference 0.
\<close>

definition below9 :: "nat \<Rightarrow> bool" where
  "below9 r = (r < 9)"

definition highRisk :: "nat \<Rightarrow> bool" where
  "highRisk r = (5 < r)"

definition riskSpec :: "nat optionalFilter" where
  "riskSpec = \<lparr>label = ''High Risk'', filter_fn = highRisk, enabled = None, key = None\<rparr>"

definition riskOff :: "nat optionalFilter" where
  "riskOff = \<lparr>label = ''High Risk'', filter_fn = highRisk, enabled = Some False,
     key = Some ''highrisk''\<rparr>"

definition riskOn :: "nat optionalFilter" where
  "riskOn = \<lparr>label = ''High Risk'', filter_fn = highRisk, enabled = Some True,
     key = Some ''highrisk''\<rparr>"

definition heapWith :: "nat optionalFilter \<Rightarrow> nat heap" where
  "heapWith v = \<lparr>objs = (\<lambda>a. v), arrs = (\<lambda>a. [])(0 := [1, 7, 3, 9]), nextArr = 1\<rparr>"

definition sampleProps :: "nat props" where
  "sampleProps = \<lparr>delayInterval = Val 1000, fetchListActionCreator = Val (),
     filters = Val [below9], onMountOtherActionCreators = Val [],
     optionalFilters = Val [0]\<rparr>"

definition bareProps :: "nat props" where
  "bareProps = \<lparr>delayInterval = Undefined, fetchListActionCreator = Undefined,
     filters = Undefined, onMountOtherActionCreators = Undefined,
     optionalFilters = Undefined\<rparr>"

definition fetchOnlyProps :: "nat props" where
  "fetchOnlyProps = \<lparr>delayInterval = Undefined, fetchListActionCreator = Val (),
     filters = Undefined, onMountOtherActionCreators = Undefined,
     optionalFilters = Undefined\<rparr>"

definition instanceOf :: "nat props \<Rightarrow> ref list \<Rightarrow> nat component" where
  "instanceOf p vs = \<lparr>props = p, state_filters = vs, interval = None\<rparr>"

definition idleWorld :: world where
  "idleWorld = \<lparr>calls = [], timers = [], nextHandle = 1\<rparr>"

subsection \<open>Facts about the filter pipeline\<close>

lemma applyFiltersHelper_Nil: "applyFiltersHelper list [] h = (list, h)"
  by (subst applyFiltersHelper.simps) simp

lemma applyFiltersHelper_snoc:
  "applyFiltersHelper list (fs @ [f]) h =
     applyFiltersHelper (nextArr h) fs
       (h\<lparr>arrs := (arrs h)(nextArr h := filter f (arrs h list)), nextArr := Suc (nextArr h)\<rparr>)"
  by (subst applyFiltersHelper.simps) (simp add: array_filter_def)

lemma helper_rows:
  "resultRows (applyFiltersHelper list fs h) = filter (\<lambda>r. \<forall>f\<in>set fs. f r) (arrs h list)"
proof (induction fs arbitrary: list h rule: rev_induct)
  case Nil
  show ?case by (simp add: applyFiltersHelper_Nil resultRows_def)
next
  case (snoc f fs)
  show ?case
    by (simp add: applyFiltersHelper_snoc snoc.IH conj_commute)
qed

lemma helper_frame:
  "applyFiltersHelper list fs h = (res, h') \<Longrightarrow>
     objs h' = objs h \<and> nextArr h' = nextArr h + length fs \<and>
     (\<forall>a. a < nextArr h \<longrightarrow> arrs h' a = arrs h a)"
proof (induction fs arbitrary: list h rule: rev_induct)
  case Nil
  then show ?case by (simp add: applyFiltersHelper_Nil)
next
  case (snoc f fs)
  from snoc.prems
    snoc.IH [of "nextArr h"
      "h\<lparr>arrs := (arrs h)(nextArr h := filter f (arrs h list)), nextArr := Suc (nextArr h)\<rparr>"]
  show ?case
    by (simp add: applyFiltersHelper_snoc)
qed

lemma fold_filter_rows:
  "fold (\<lambda>f rs. filter f rs) fs rows = filter (\<lambda>r. \<forall>f\<in>set fs. f r) rows"
  by (induction fs arbitrary: rows) (auto intro: filter_cong)

lemma set_enabledFilters:
  "(\<forall>f\<in>set (enabledFilters c h). f r) =
     (\<forall>a\<in>set (state_filters c). truthy (enabled (objs h a)) \<longrightarrow> filter_fn (objs h a) r)"
  by (auto simp add: enabledFilters_def)

subsection \<open>What \<open>applyFilters\<close> returns\<close>

text \<open>
  Claim C1. For every row array, every list of mandatory filters and every state of the
  optional filters, the array that \<open>applyFilters\<close> returns holds exactly the rows
  of the input, in their order, that pass every mandatory filter and every optional
  filter whose \<open>enabled\<close> is truthy. With no filter at all the input reference itself
  comes back and the store is untouched; with no rows the result is empty.
\<close>

theorem applyFilters_subset:
  "resultRows (applyFilters c list h) =
     filter (\<lambda>r. (\<forall>f\<in>set (mandatoryFilters c). f r) \<and>
                 (\<forall>a\<in>set (state_filters c).
                     truthy (enabled (objs h a)) \<longrightarrow> filter_fn (objs h a) r))
       (arrs h list)
   \<and> (mandatoryFilters c = [] \<and> enabledFilters c h = [] \<longrightarrow>
        applyFilters c list h = (list, h))
   \<and> (arrs h list = [] \<longrightarrow> resultRows (applyFilters c list h) = [])"
proof -
  have rows: "resultRows (applyFilters c list h) =
     filter (\<lambda>r. (\<forall>f\<in>set (mandatoryFilters c). f r) \<and>
                 (\<forall>a\<in>set (state_filters c).
                     truthy (enabled (objs h a)) \<longrightarrow> filter_fn (objs h a) r))
       (arrs h list)"
    unfolding applyFilters_def helper_rows
    by (simp add: ball_Un set_enabledFilters)
  have none: "mandatoryFilters c = [] \<and> enabledFilters c h = [] \<longrightarrow>
        applyFilters c list h = (list, h)"
    by (simp add: applyFilters_def applyFiltersHelper_Nil)
  from rows none show ?thesis by simp
qed

text \<open>
  Claim C3. The rows that survive do not depend on the order of the filters: two
  filter lists that are permutations of each other give the same rows, and the
  last-to-first recursion of \<open>applyFiltersHelper\<close> gives the rows of a left-to-right
  fold (and of a right-to-left one).
\<close>

theorem applyFiltersHelper_order:
  "(mset fs = mset gs \<longrightarrow>
      resultRows (applyFiltersHelper list fs h) = resultRows (applyFiltersHelper list gs h))
   \<and> resultRows (applyFiltersHelper list fs h) = fold (\<lambda>f rs. filter f rs) fs (arrs h list)
   \<and> resultRows (applyFiltersHelper list fs h) = foldr (\<lambda>f rs. filter f rs) fs (arrs h list)"
proof -
  have perm: "mset fs = mset gs \<longrightarrow>
      resultRows (applyFiltersHelper list fs h) = resultRows (applyFiltersHelper list gs h)"
  proof
    assume "mset fs = mset gs"
    then have "set fs = set gs" by (rule mset_eq_setD)
    then show "resultRows (applyFiltersHelper list fs h) =
      resultRows (applyFiltersHelper list gs h)"
      by (simp add: helper_rows)
  qed
  have left: "resultRows (applyFiltersHelper list fs h) =
      fold (\<lambda>f rs. filter f rs) fs (arrs h list)"
    by (simp add: helper_rows fold_filter_rows)
  have "foldr (\<lambda>f rs. filter f rs) fs (arrs h list) =
      fold (\<lambda>f rs. filter f rs) (rev fs) (arrs h list)"
    by (simp add: foldr_conv_fold)
  then have right: "resultRows (applyFiltersHelper list fs h) =
      foldr (\<lambda>f rs. filter f rs) fs (arrs h list)"
    by (simp add: helper_rows fold_filter_rows)
  from perm left right show ?thesis by simp
qed

text \<open>
  Claim C9. \<open>applyFilters\<close> does not change the row array it is given: after the
  call the input reference holds the same list, in length, order and elements. No
  array allocated before the call changes, and no filter object does.
\<close>

theorem applyFilters_frame:
  assumes "list < nextArr h" and "applyFilters c list h = (res, h')"
  shows "arrs h' list = arrs h list \<and> (\<forall>a. a < nextArr h \<longrightarrow> arrs h' a = arrs h a)
    \<and> objs h' = objs h"
proof -
  from assms(2) have run:
    "applyFiltersHelper list (mandatoryFilters c @ enabledFilters c h) h = (res, h')"
    by (simp add: applyFilters_def)
  note fr = helper_frame [OF run]
  from fr assms(1) have same: "arrs h' list = arrs h list" by simp
  from fr same show ?thesis by simp
qed

theorem applyFilters_subset_witness:
  "resultRows (applyFilters (instanceOf sampleProps [0]) 0 (heapWith riskOn)) = [7]
   \<and> resultRows (applyFilters (instanceOf sampleProps [0]) 0 (heapWith riskOff)) = [1, 7, 3]
   \<and> applyFilters (instanceOf bareProps []) 0 (heapWith riskOn) = (0, heapWith riskOn)"
  using applyFilters_subset [of "instanceOf sampleProps [0]" 0 "heapWith riskOn"]
    applyFilters_subset [of "instanceOf sampleProps [0]" 0 "heapWith riskOff"]
    applyFilters_subset [of "instanceOf bareProps []" 0 "heapWith riskOn"]
  by (simp add: instanceOf_def sampleProps_def bareProps_def heapWith_def riskOn_def
      riskOff_def mandatoryFilters_def enabledFilters_def below9_def highRisk_def)

theorem applyFiltersHelper_order_witness:
  "mset [below9, highRisk] = mset [highRisk, below9]
   \<and> resultRows (applyFiltersHelper 0 [below9, highRisk] (heapWith riskOn)) =
       resultRows (applyFiltersHelper 0 [highRisk, below9] (heapWith riskOn))
   \<and> resultRows (applyFiltersHelper 0 [below9, highRisk] (heapWith riskOn)) = [7]"
  using applyFiltersHelper_order [of "[below9, highRisk]" "[highRisk, below9]" 0 "heapWith riskOn"]
  by (auto simp add: heapWith_def below9_def highRisk_def)

theorem applyFilters_frame_witness:
  "(0::nat) < nextArr (heapWith riskOn)
   \<and> applyFilters (instanceOf sampleProps [0]) 0 (heapWith riskOn) =
       (2, (heapWith riskOn)\<lparr>arrs := (arrs (heapWith riskOn))(1 := [7, 9], 2 := [7]), nextArr := 3\<rparr>)
   \<and> arrs (snd (applyFilters (instanceOf sampleProps [0]) 0 (heapWith riskOn))) 0 = [1, 7, 3, 9]"
proof -
  have bound: "(0::nat) < nextArr (heapWith riskOn)"
    by (simp add: heapWith_def)
  have run: "applyFilters (instanceOf sampleProps [0]) 0 (heapWith riskOn) =
       (2, (heapWith riskOn)\<lparr>arrs := (arrs (heapWith riskOn))(1 := [7, 9], 2 := [7]), nextArr := 3\<rparr>)"
    by (simp add: applyFilters_def applyFiltersHelper.simps array_filter_def instanceOf_def
        sampleProps_def heapWith_def riskOn_def mandatoryFilters_def enabledFilters_def
        below9_def highRisk_def numeral_2_eq_2 numeral_3_eq_3)
  from applyFilters_frame [OF bound run] bound run show ?thesis
    by (simp add: heapWith_def numeral_2_eq_2)
qed


subsection \<open>Facts about strings, the constructor and the toggle\<close>

lemma of_char_lowerChar:
  "(of_char (lowerChar c) :: nat) = (if isUpper c then of_char c + 32 else of_char c)"
  by (auto simp add: lowerChar_def isUpper_def Let_def)

lemma lowerChar_not_upper: "\<not> isUpper (lowerChar c)"
  unfolding isUpper_def [of "lowerChar c"] Let_def of_char_lowerChar
  by (auto simp add: isUpper_def Let_def)

lemma lowerChar_space: "isWhiteSpace (lowerChar c) = isWhiteSpace c"
  unfolding isWhiteSpace_def Let_def of_char_lowerChar
  by (auto simp add: isUpper_def Let_def)

lemma normalize_conv: "normalize l = map lowerChar (removeWhiteSpace l)"
  by (simp add: normalize_def toLowerCase_def removeWhiteSpace_def filter_map comp_def lowerChar_space)

lemma normalize_chars: "\<forall>ch\<in>set (normalize l). \<not> isWhiteSpace ch \<and> \<not> isUpper ch"
  by (auto simp add: normalize_def toLowerCase_def removeWhiteSpace_def lowerChar_not_upper)

lemma normalize_blood: "normalize ''Blood Pressure'' = ''bloodpressure''"
  by code_simp

lemma normalize_risk: "normalize ''High Risk'' = ''highrisk''"
  by code_simp


lemma initFilter_idem: "initFilter (initFilter v) = initFilter v"
  by (simp add: initFilter_def)

lemma initFilters_heap:
  "initFilters as h = h\<lparr>objs := (\<lambda>a. if a \<in> set as then initFilter (objs h a) else objs h a)\<rparr>"
proof (induction as arbitrary: h)
  case Nil
  show ?case by simp
next
  case (Cons b as)
  show ?case
    by (simp add: Cons.IH fun_eq_iff initFilter_idem)
qed

lemma toggleFilters_heap:
  "toggleFilters k as h = h\<lparr>objs := (\<lambda>a. (toggleFilter k ^^ count_list as a) (objs h a))\<rparr>"
proof (induction as arbitrary: h)
  case Nil
  show ?case by simp
next
  case (Cons b as)
  show ?case
    by (simp add: Cons.IH fun_eq_iff funpow_swap1)
qed

lemma toggleFilter_fields:
  "label (toggleFilter k v) = label v" "filter_fn (toggleFilter k v) = filter_fn v"
  "key (toggleFilter k v) = key v"
  "truthy (enabled (toggleFilter k v)) =
     (if key v = k then \<not> truthy (enabled v) else truthy (enabled v))"
  by (simp_all add: toggleFilter_def)

lemma toggleFilter_other: "key v \<noteq> k \<Longrightarrow> toggleFilter k v = v"
  by (simp add: toggleFilter_def)

lemma toggle_pow_fields:
  "label ((toggleFilter k ^^ n) v) = label v \<and> filter_fn ((toggleFilter k ^^ n) v) = filter_fn v
   \<and> key ((toggleFilter k ^^ n) v) = key v"
  by (induction n) (simp_all add: toggleFilter_fields)

lemma toggle_pow_other: "key v \<noteq> k \<Longrightarrow> (toggleFilter k ^^ n) v = v"
  by (induction n) (simp_all add: toggleFilter_other)

lemma toggle_pow_enabled:
  "truthy (enabled ((toggleFilter k ^^ n) v)) =
     (if key v = k \<and> odd n then \<not> truthy (enabled v) else truthy (enabled v))"
  by (induction n) (simp_all add: toggleFilter_fields toggle_pow_fields)

lemma toggle_twice: "enabled v \<noteq> None \<Longrightarrow> toggleFilter k (toggleFilter k v) = v"
  by (cases "enabled v") (auto simp add: toggleFilter_def)

lemma toggle_pow_even: "enabled v \<noteq> None \<Longrightarrow> (toggleFilter k ^^ (n + n)) v = v"
  by (induction n) (simp_all add: toggle_twice funpow_swap1)

lemma count_list_single: "filter P xs = [a] \<Longrightarrow> count_list xs a = 1"
proof (induction xs)
  case Nil
  then show ?case by simp
next
  case (Cons x xs)
  have "\<forall>y\<in>set (filter P (x # xs)). P y" by simp
  then have Pa: "P a" unfolding Cons.prems by simp
  show ?case
  proof (cases "P x")
    case True
    then have xa: "x = a" and "filter P xs = []" using Cons.prems by simp_all
    then have "a \<notin> set xs" using Pa by (auto simp: filter_empty_conv)
    then show ?thesis using xa by simp
  next
    case False
    then have "filter P xs = [a]" "x \<noteq> a" using Cons.prems Pa by auto
    then show ?thesis using Cons.IH by simp
  qed
qed



lemma toggle_pow_boolean: "enabled v \<noteq> None \<Longrightarrow> enabled ((toggleFilter k ^^ n) v) \<noteq> None"
  by (induction n) (simp_all add: toggleFilter_def)

text \<open>
  After the constructor every entry holds a boolean in \<open>enabled\<close>, and a toggle keeps
  it so.
\<close>

lemma constructor_booleans:
  "constructor p h = (c, h') \<Longrightarrow> \<forall>a\<in>set (state_filters c). enabled (objs h' a) \<noteq> None"
  by (cases "optionalFilters p") (auto simp add: constructor_def initFilters_heap initFilter_def)

lemma handleFilterToggle_booleans:
  assumes "handleFilterToggle k c h = (c', h')"
    and "\<forall>a\<in>set (state_filters c). enabled (objs h a) \<noteq> None"
  shows "\<forall>a\<in>set (state_filters c'). enabled (objs h' a) \<noteq> None"
proof
  fix a
  assume a: "a \<in> set (state_filters c')"
  from assms(1) have c': "c' = c" and h': "h' = toggleFilters k (state_filters c) h"
    by (auto simp add: handleFilterToggle_def)
  from a c' assms(2) have "enabled (objs h a) \<noteq> None" by simp
  then have "enabled ((toggleFilter k ^^ count_list (state_filters c) a) (objs h a)) \<noteq> None"
    by (rule toggle_pow_boolean)
  then show "enabled (objs h' a) \<noteq> None"
    by (simp add: h' toggleFilters_heap)
qed

lemma constructor_Val:
  "optionalFilters p = Val vs \<Longrightarrow>
     constructor p h = (\<lparr>props = p, state_filters = vs, interval = None\<rparr>, initFilters vs h)"
  by (simp add: constructor_def)

subsection \<open>What the constructor leaves behind\<close>

text \<open>
  Claim C7. The constructor makes one entry of \<open>state.filters\<close> for each element of
  \<open>props.optionalFilters\<close>; each entry has \<open>enabled = false\<close>, its label and
  predicate as given, and as key the label lower-cased with every whitespace character
  removed. The key contains no whitespace and no upper-case character, and removing the
  whitespace first and lower-casing second gives the same key. "Blood Pressure"
  becomes "bloodpressure". Without \<open>optionalFilters\<close> (undefined, null or an empty
  array) there are no entries.
\<close>

theorem constructor_filters:
  "(optionalFilters p = Val vs \<longrightarrow>
      length (state_filters (fst (constructor p h))) = length vs
      \<and> (\<forall>i<length vs.
            enabled (objs (snd (constructor p h)) (state_filters (fst (constructor p h)) ! i))
              = Some False
          \<and> key (objs (snd (constructor p h)) (state_filters (fst (constructor p h)) ! i))
              = Some (normalize (label (objs h (vs ! i))))
          \<and> label (objs (snd (constructor p h)) (state_filters (fst (constructor p h)) ! i))
              = label (objs h (vs ! i))
          \<and> filter_fn (objs (snd (constructor p h)) (state_filters (fst (constructor p h)) ! i))
              = filter_fn (objs h (vs ! i))))
   \<and> (optionalFilters p = Undefined \<or> optionalFilters p = Null \<or> optionalFilters p = Val []
        \<longrightarrow> state_filters (fst (constructor p h)) = [] \<and> snd (constructor p h) = h)
   \<and> normalize l = removeWhiteSpace (toLowerCase l)
   \<and> normalize l = map lowerChar (removeWhiteSpace l)
   \<and> (\<forall>ch\<in>set (normalize l). \<not> isWhiteSpace ch \<and> \<not> isUpper ch)
   \<and> normalize ''Blood Pressure'' = ''bloodpressure''"
proof -
  have entries: "optionalFilters p = Val vs \<longrightarrow>
      length (state_filters (fst (constructor p h))) = length vs
      \<and> (\<forall>i<length vs.
            enabled (objs (snd (constructor p h)) (state_filters (fst (constructor p h)) ! i))
              = Some False
          \<and> key (objs (snd (constructor p h)) (state_filters (fst (constructor p h)) ! i))
              = Some (normalize (label (objs h (vs ! i))))
          \<and> label (objs (snd (constructor p h)) (state_filters (fst (constructor p h)) ! i))
              = label (objs h (vs ! i))
          \<and> filter_fn (objs (snd (constructor p h)) (state_filters (fst (constructor p h)) ! i))
              = filter_fn (objs h (vs ! i)))"
    by (simp add: constructor_Val initFilters_heap initFilter_def)
  have empty: "optionalFilters p = Undefined \<or> optionalFilters p = Null \<or> optionalFilters p = Val []
        \<longrightarrow> state_filters (fst (constructor p h)) = [] \<and> snd (constructor p h) = h"
    by (auto simp add: constructor_def)
  from entries empty normalize_conv [of l] normalize_chars [of l] normalize_blood
  show ?thesis by (simp add: normalize_def)
qed

theorem constructor_filters_witness:
  "optionalFilters sampleProps = Val [0]
   \<and> state_filters (fst (constructor sampleProps (heapWith riskSpec))) = [0]
   \<and> objs (snd (constructor sampleProps (heapWith riskSpec))) 0 = riskOff
   \<and> optionalFilters bareProps = Undefined
   \<and> state_filters (fst (constructor bareProps (heapWith riskSpec))) = []"
proof -
  have given: "optionalFilters sampleProps = Val [0]" "optionalFilters bareProps = Undefined"
    by (simp_all add: sampleProps_def bareProps_def)
  have refs: "state_filters (fst (constructor sampleProps (heapWith riskSpec))) = [0]"
    by (simp add: constructor_Val given)
  have before: "label (objs (heapWith riskSpec) 0) = ''High Risk''"
    "filter_fn (objs (heapWith riskSpec) 0) = highRisk"
    by (simp_all add: heapWith_def riskSpec_def)
  from constructor_filters [of sampleProps "[0]" "heapWith riskSpec" "''High Risk''"]
    constructor_filters [of bareProps "[]" "heapWith riskSpec" "''High Risk''"]
    given refs before normalize_risk
  show ?thesis by (simp add: riskOff_def)
qed

text \<open>
  Claim C10. The constructor writes \<open>enabled\<close> and \<open>key\<close> into the objects the
  caller passed: \<open>state.filters\<close> holds the caller's own references, the objects at
  those references now carry \<open>enabled = false\<close> and the normalized key, and nothing
  else in the store has changed, so no new object stands for an entry.
\<close>

theorem constructor_aliases:
  assumes "optionalFilters p = Val vs" and "constructor p h = (c, h')"
  shows "state_filters c = vs
    \<and> (\<forall>a\<in>set vs. objs h' a =
          (objs h a)\<lparr>enabled := Some False, key := Some (normalize (label (objs h a)))\<rparr>)
    \<and> (\<forall>a. a \<notin> set vs \<longrightarrow> objs h' a = objs h a)
    \<and> arrs h' = arrs h \<and> nextArr h' = nextArr h"
  using assms by (auto simp add: constructor_Val initFilters_heap initFilter_def)

theorem constructor_aliases_witness:
  "optionalFilters sampleProps = Val [0]
   \<and> enabled (objs (heapWith riskSpec) 0) = None \<and> key (objs (heapWith riskSpec) 0) = None
   \<and> state_filters (fst (constructor sampleProps (heapWith riskSpec))) = [0]
   \<and> enabled (objs (snd (constructor sampleProps (heapWith riskSpec))) 0) = Some False
   \<and> key (objs (snd (constructor sampleProps (heapWith riskSpec))) 0) = Some ''highrisk''
   \<and> objs (snd (constructor sampleProps (heapWith riskSpec))) 1 = riskSpec"
proof -
  have given: "optionalFilters sampleProps = Val [0]"
    by (simp add: sampleProps_def)
  have before: "objs (heapWith riskSpec) 0 = riskSpec" "objs (heapWith riskSpec) 1 = riskSpec"
    by (simp_all add: heapWith_def)
  from constructor_aliases [OF given surjective_pairing, of "heapWith riskSpec"]
    given before normalize_risk
  show ?thesis by (simp add: riskSpec_def)
qed

subsection \<open>Toggling\<close>

text \<open>
  Claim C5. Calling \<open>handleFilterToggle\<close> twice with the same key, from any state
  of the filters, gives back the instance, and every filter object is enabled
  exactly when it was before, with its label, predicate and key as they were. When
  every entry of \<open>state.filters\<close> holds a boolean in \<open>enabled\<close>, as it does after
  the constructor and after every toggle, the whole store is the one before the two
  calls.
\<close>

theorem handleFilterToggle_twice:
  assumes "handleFilterToggle k c h = (c1, h1)" and "handleFilterToggle k c1 h1 = (c2, h2)"
  shows "c2 = c
    \<and> (\<forall>a. truthy (enabled (objs h2 a)) = truthy (enabled (objs h a))
           \<and> label (objs h2 a) = label (objs h a)
           \<and> filter_fn (objs h2 a) = filter_fn (objs h a)
           \<and> key (objs h2 a) = key (objs h a))
    \<and> arrs h2 = arrs h \<and> nextArr h2 = nextArr h
    \<and> ((\<forall>a\<in>set (state_filters c). enabled (objs h a) \<noteq> None) \<longrightarrow> h2 = h)"
proof -
  let ?n = "count_list (state_filters c)"
  from assms(1) have c1: "c1 = c" and h1: "h1 = toggleFilters k (state_filters c) h"
    by (auto simp add: handleFilterToggle_def)
  from assms(2) c1 h1 have c2: "c2 = c"
    and h2: "h2 = toggleFilters k (state_filters c) (toggleFilters k (state_filters c) h)"
    by (auto simp add: handleFilterToggle_def)
  have obj: "objs h2 a = (toggleFilter k ^^ (?n a + ?n a)) (objs h a)" for a
    by (simp add: h2 toggleFilters_heap funpow_add)
  have h2': "h2 = h\<lparr>objs := objs h2\<rparr>"
    by (simp add: h2 toggleFilters_heap)
  have fields: "truthy (enabled (objs h2 a)) = truthy (enabled (objs h a))
           \<and> label (objs h2 a) = label (objs h a)
           \<and> filter_fn (objs h2 a) = filter_fn (objs h a)
           \<and> key (objs h2 a) = key (objs h a)" for a
    by (simp add: obj toggle_pow_fields toggle_pow_enabled)
  have rest: "arrs h2 = arrs h \<and> nextArr h2 = nextArr h"
    by (simp add: h2 toggleFilters_heap)
  have restored: "h2 = h" if wf: "\<forall>a\<in>set (state_filters c). enabled (objs h a) \<noteq> None"
  proof -
    have "objs h2 a = objs h a" for a
    proof (cases "a \<in> set (state_filters c)")
      case True
      with wf have "enabled (objs h a) \<noteq> None" by simp
      then have "(toggleFilter k ^^ (?n a + ?n a)) (objs h a) = objs h a"
        by (rule toggle_pow_even)
      then show ?thesis by (simp only: obj)
    next
      case False
      then have "?n a = 0" by simp
      then show ?thesis by (simp add: obj)
    qed
    then have "objs h2 = objs h" by (simp add: fun_eq_iff)
    with h2' show ?thesis by simp
  qed
  from c2 fields rest restored show ?thesis by blast
qed

text \<open>
  Claim C6. When exactly one entry of \<open>state.filters\<close> has the key,
  \<open>handleFilterToggle\<close> negates \<open>enabled\<close> on that object and leaves every
  other object as it was; when no entry has the key the store is unchanged. In every
  case the labels, predicates and keys of all objects, the list \<open>state.filters\<close>
  and the row arrays stay the same.
\<close>

theorem handleFilterToggle_frame:
  assumes "handleFilterToggle k c h = (c', h')"
  shows "(filter (\<lambda>a. key (objs h a) = k) (state_filters c) = [b] \<longrightarrow>
            objs h' b = (objs h b)\<lparr>enabled := Some (\<not> truthy (enabled (objs h b)))\<rparr>
            \<and> (\<forall>a. a \<noteq> b \<longrightarrow> objs h' a = objs h a))
    \<and> (filter (\<lambda>a. key (objs h a) = k) (state_filters c) = [] \<longrightarrow> h' = h)
    \<and> c' = c \<and> arrs h' = arrs h \<and> nextArr h' = nextArr h
    \<and> (\<forall>a. label (objs h' a) = label (objs h a) \<and> filter_fn (objs h' a) = filter_fn (objs h a)
            \<and> key (objs h' a) = key (objs h a))"
proof -
  let ?n = "count_list (state_filters c)"
  let ?match = "filter (\<lambda>a. key (objs h a) = k) (state_filters c)"
  from assms have c': "c' = c" and h': "h' = toggleFilters k (state_filters c) h"
    by (auto simp add: handleFilterToggle_def)
  have obj: "objs h' a = (toggleFilter k ^^ ?n a) (objs h a)" for a
    by (simp add: h' toggleFilters_heap)
  have h'': "h' = h\<lparr>objs := objs h'\<rparr>"
    by (simp add: h' toggleFilters_heap)
  have other: "objs h' a = objs h a" if "a \<notin> set ?match" for a
  proof (cases "a \<in> set (state_filters c)")
    case True
    with that have "key (objs h a) \<noteq> k" by simp
    then show ?thesis by (simp add: obj toggle_pow_other)
  next
    case False
    then have "?n a = 0" by simp
    then show ?thesis by (simp add: obj)
  qed
  have one: "objs h' b = (objs h b)\<lparr>enabled := Some (\<not> truthy (enabled (objs h b)))\<rparr>
            \<and> (\<forall>a. a \<noteq> b \<longrightarrow> objs h' a = objs h a)" if m: "?match = [b]"
  proof -
    from m have "?n b = 1" by (rule count_list_single)
    moreover have "b \<in> set ?match" using m by simp
    then have "key (objs h b) = k" by simp
    ultimately have "objs h' b = (objs h b)\<lparr>enabled := Some (\<not> truthy (enabled (objs h b)))\<rparr>"
      by (simp add: obj toggleFilter_def)
    moreover have "objs h' a = objs h a" if "a \<noteq> b" for a
      using that m other [of a] by simp
    ultimately show ?thesis by simp
  qed
  have none: "h' = h" if m: "?match = []"
  proof -
    have "objs h' a = objs h a" for a using other [of a] m by simp
    then have "objs h' = objs h" by (simp add: fun_eq_iff)
    with h'' show ?thesis by simp
  qed
  have rest: "arrs h' = arrs h \<and> nextArr h' = nextArr h"
    by (simp add: h' toggleFilters_heap)
  have fields: "label (objs h' a) = label (objs h a) \<and> filter_fn (objs h' a) = filter_fn (objs h a)
            \<and> key (objs h' a) = key (objs h a)" for a
    by (simp add: obj toggle_pow_fields)
  from one none c' rest fields show ?thesis by blast
qed

theorem handleFilterToggle_twice_witness:
  "enabled (objs (snd (handleFilterToggle (Some ''highrisk'') (instanceOf sampleProps [0])
      (heapWith riskOff))) 0) = Some True
   \<and> snd (handleFilterToggle (Some ''highrisk'')
        (fst (handleFilterToggle (Some ''highrisk'') (instanceOf sampleProps [0]) (heapWith riskOff)))
        (snd (handleFilterToggle (Some ''highrisk'') (instanceOf sampleProps [0]) (heapWith riskOff))))
      = heapWith riskOff"
proof -
  have first: "enabled (objs (snd (handleFilterToggle (Some ''highrisk'')
      (instanceOf sampleProps [0]) (heapWith riskOff))) 0) = Some True"
    by (simp add: handleFilterToggle_def instanceOf_def heapWith_def riskOff_def toggleFilter_def)
  have wf: "\<forall>a\<in>set (state_filters (instanceOf sampleProps [0])).
      enabled (objs (heapWith riskOff) a) \<noteq> None"
    by (simp add: instanceOf_def heapWith_def riskOff_def)
  from handleFilterToggle_twice [OF surjective_pairing surjective_pairing,
      of "Some ''highrisk''" "instanceOf sampleProps [0]" "heapWith riskOff"] wf first
  show ?thesis by blast
qed

theorem handleFilterToggle_frame_witness:
  "filter (\<lambda>a. key (objs (heapWith riskOff) a) = Some ''highrisk'')
      (state_filters (instanceOf sampleProps [0])) = [0]
   \<and> objs (snd (handleFilterToggle (Some ''highrisk'') (instanceOf sampleProps [0])
        (heapWith riskOff))) 0 = riskOn
   \<and> objs (snd (handleFilterToggle (Some ''highrisk'') (instanceOf sampleProps [0])
        (heapWith riskOff))) 1 = riskOff
   \<and> snd (handleFilterToggle (Some ''lowrisk'') (instanceOf sampleProps [0])
        (heapWith riskOff)) = heapWith riskOff"
proof -
  have one: "filter (\<lambda>a. key (objs (heapWith riskOff) a) = Some ''highrisk'')
      (state_filters (instanceOf sampleProps [0])) = [0]"
    by (simp add: instanceOf_def heapWith_def riskOff_def)
  have none: "filter (\<lambda>a. key (objs (heapWith riskOff) a) = Some ''lowrisk'')
      (state_filters (instanceOf sampleProps [0])) = []"
    by (simp add: instanceOf_def heapWith_def riskOff_def)
  have flip: "(objs (heapWith riskOff) 0)\<lparr>enabled :=
      Some (\<not> truthy (enabled (objs (heapWith riskOff) 0)))\<rparr> = riskOn"
    and keep: "objs (heapWith riskOff) 1 = riskOff"
    by (simp_all add: heapWith_def riskOff_def riskOn_def)
  from handleFilterToggle_frame [OF surjective_pairing,
      where k = "Some ''highrisk''" and c = "instanceOf sampleProps [0]"
        and h = "heapWith riskOff" and b = 0]
    handleFilterToggle_frame [OF surjective_pairing,
      where k = "Some ''lowrisk''" and c = "instanceOf sampleProps [0]"
        and h = "heapWith riskOff" and b = 0]
    one none flip keep
  show ?thesis by simp
qed


subsection \<open>Facts about timers and mounting\<close>

lemma fetchCount_others: "filter (\<lambda>c. c = FetchList) (map OtherAction acts) = []"
  by (induction acts) simp_all

lemma mountOtherActions_world:
  assumes "mountOtherActions c w = (err, c', w')"
  shows "c' = c \<and> timers w' = timers w \<and> nextHandle w' = nextHandle w
    \<and> fetchCount w' = fetchCount w
    \<and> (err = None \<longleftrightarrow> onMountOtherActionCreators (props c) \<noteq> Null)"
  using assms
  by (cases "onMountOtherActionCreators (props c)")
    (auto simp add: mountOtherActions_def fetchCount_def fetchCount_others)

lemma fetchCount_advance:
  "fetchCount (advance e w) = fetchCount w + sum_list (map (firings e) (timers w))"
  by (simp add: fetchCount_def advance_def)

lemma handles_advance: "map handle (timers (advance e w)) = map handle (timers w)"
  by (simp add: advance_def elapse_def comp_def)

lemma advance_idle: "timers w = [] \<Longrightarrow> fetchCount (advance e w) = fetchCount w"
  by (simp add: fetchCount_advance)

lemma clearInterval_calls: "calls (clearInterval i w) = calls w"
  by (cases i) (simp_all add: clearInterval_def)

lemma clearInterval_handles:
  "map handle (timers (clearInterval (Some n) w)) = filter (\<lambda>m. m \<noteq> n) (map handle (timers w))"
  by (simp add: clearInterval_def filter_map comp_def)

lemma componentDidMount_no_timer:
  assumes "componentDidMount c w = (err, c', w')"
    and "fetchListActionCreator (props c) = Undefined \<or> fetchListActionCreator (props c) = Null
      \<or> delayInterval (props c) = Undefined \<or> delayInterval (props c) = Null
      \<or> (\<exists>d. delayInterval (props c) = Val d \<and> d \<le> 0)"
  shows "c' = c \<and> timers w' = timers w \<and> nextHandle w' = nextHandle w
    \<and> fetchCount w' =
        (case fetchListActionCreator (props c) of Val f \<Rightarrow> Suc (fetchCount w) | _ \<Rightarrow> fetchCount w)"
proof (cases "fetchListActionCreator (props c)")
  case Undefined
  with assms(1) have "mountOtherActions c w = (err, c', w')"
    by (simp add: componentDidMount_def)
  from mountOtherActions_world [OF this] Undefined show ?thesis by simp
next
  case Null
  with assms(1) show ?thesis by (simp add: componentDidMount_def)
next
  case (Val f)
  let ?w1 = "w\<lparr>calls := calls w @ [FetchList]\<rparr>"
  from assms(2) Val have "delayInterval (props c) = Undefined \<or> delayInterval (props c) = Null
      \<or> (\<exists>d. delayInterval (props c) = Val d \<and> d \<le> 0)"
    by simp
  with assms(1) Val have "mountOtherActions c ?w1 = (err, c', w')"
    by (auto simp add: componentDidMount_def)
  from mountOtherActions_world [OF this] Val show ?thesis
    by (simp add: fetchCount_def)
qed

lemma componentDidMount_timer:
  assumes "componentDidMount c w = (err, c', w')"
    and "fetchListActionCreator (props c) = Val f" and "delayInterval (props c) = Val d"
    and "0 < d"
  shows "c' = c\<lparr>interval := Some (nextHandle w)\<rparr>
    \<and> timers w' = timers w @ [\<lparr>handle = nextHandle w, period = max 1 (nat d), due = max 1 (nat d)\<rparr>]
    \<and> fetchCount w' = Suc (fetchCount w)"
proof -
  let ?w2 = "w\<lparr>calls := calls w @ [FetchList],
      timers := timers w @ [\<lparr>handle = nextHandle w, period = max 1 (nat d), due = max 1 (nat d)\<rparr>],
      nextHandle := Suc (nextHandle w)\<rparr>"
  from assms have "mountOtherActions (c\<lparr>interval := Some (nextHandle w)\<rparr>) ?w2 = (err, c', w')"
    by (simp add: componentDidMount_def setInterval_def)
  from mountOtherActions_world [OF this] show ?thesis
    by (simp add: fetchCount_def)
qed

text \<open>
  The clock is consistent: letting \<open>a\<close> and then \<open>b\<close> milliseconds pass is the
  same as letting \<open>a + b\<close> pass.
\<close>

lemma div_split: "(x + b) div p = x div p + (x mod p + b) div (p::nat)"
proof (cases "p = 0")
  case True
  then show ?thesis by simp
next
  case False
  have "x + b = (x mod p + b) + (x div p) * p" by simp
  then have "(x + b) div p = ((x mod p + b) + (x div p) * p) div p" by simp
  also have "\<dots> = x div p + (x mod p + b) div p" using False by (rule div_mult_self1)
  finally show ?thesis .
qed

lemma firings_add:
  assumes "0 < due t" and "due t \<le> period t"
  shows "firings (a + b) t = firings a t + firings b (elapse a t)"
proof (cases "a < due t")
  case True
  then have "a + b - due t = b - (due t - a)" by simp
  with True show ?thesis
    by (auto simp add: firings_def elapse_def)
next
  case False
  define x where "x = a - due t"
  define p where "p = period t"
  have p: "0 < p" using assms by (simp add: p_def)
  then have r: "x mod p < p" by simp
  from False have ab: "a + b - due t = x + b" by (simp add: x_def)
  have split: "(x + b) div p = x div p + (x mod p + b) div p" by (rule div_split)
  show ?thesis
  proof (cases "b < p - x mod p")
    case True
    then have "(x mod p + b) div p = 0" by simp
    with split False True show ?thesis
      by (simp add: firings_def elapse_def ab x_def [symmetric] p_def [symmetric])
  next
    case nb: False
    then have "p \<le> x mod p + b" by simp
    with p have "(x mod p + b) div p = Suc ((x mod p + b - p) div p)"
      by (simp add: le_div_geq)
    moreover have "x mod p + b - p = b - (p - x mod p)" using r nb by simp
    ultimately show ?thesis using split False nb
      by (simp add: firings_def elapse_def ab x_def [symmetric] p_def [symmetric])
  qed
qed

lemma elapse_add:
  assumes "0 < due t" and "due t \<le> period t"
  shows "elapse (a + b) t = elapse b (elapse a t)"
proof (cases "a < due t")
  case True
  then have "a + b - due t = b - (due t - a)" by simp
  with True show ?thesis
    by (auto simp add: elapse_def)
next
  case False
  define x where "x = a - due t"
  define p where "p = period t"
  have p: "0 < p" using assms by (simp add: p_def)
  then have r: "x mod p < p" by simp
  from False have ab: "a + b - due t = x + b" by (simp add: x_def)
  have split: "(x + b) mod p = (x mod p + b) mod p" by (simp add: mod_add_left_eq)
  show ?thesis
  proof (cases "b < p - x mod p")
    case True
    then have "(x mod p + b) mod p = x mod p + b" by simp
    with split False True show ?thesis
      by (simp add: elapse_def ab x_def [symmetric] p_def [symmetric])
  next
    case nb: False
    then have "p \<le> x mod p + b" by simp
    then have "(x mod p + b) mod p = (x mod p + b - p) mod p"
      by (simp add: le_mod_geq)
    moreover have "x mod p + b - p = b - (p - x mod p)" using r nb by simp
    ultimately show ?thesis using split False nb
      by (simp add: elapse_def ab x_def [symmetric] p_def [symmetric])
  qed
qed

lemma elapse_bounds:
  assumes "0 < due t" and "due t \<le> period t"
  shows "0 < due (elapse a t) \<and> due (elapse a t) \<le> period (elapse a t)"
  using assms by (auto simp add: elapse_def)

lemma firings_sum:
  "\<forall>t\<in>set ts. 0 < due t \<and> due t \<le> period t \<Longrightarrow>
     sum_list (map (firings (a + b)) ts) =
       sum_list (map (firings a) ts) + sum_list (map (firings b) (map (elapse a) ts))"
  by (induction ts) (simp_all add: firings_add)

lemma advance_add: "timersOk w \<Longrightarrow> advance (a + b) w = advance b (advance a w)"
  by (simp add: advance_def timersOk_def firings_sum elapse_add replicate_add)

lemma timersOk_setInterval: "timersOk w \<Longrightarrow> timersOk (snd (setInterval d w))"
  by (simp add: timersOk_def setInterval_def)

lemma timersOk_clearInterval: "timersOk w \<Longrightarrow> timersOk (clearInterval i w)"
  by (cases i) (simp_all add: timersOk_def clearInterval_def)

lemma timersOk_advance: "timersOk w \<Longrightarrow> timersOk (advance e w)"
  by (simp add: timersOk_def advance_def elapse_bounds)

lemma resolveDefaultProps_fields:
  "fetchListActionCreator (resolveDefaultProps p) = fetchListActionCreator p"
  "onMountOtherActionCreators (resolveDefaultProps p) = onMountOtherActionCreators p"
  "optionalFilters (resolveDefaultProps p) = optionalFilters p"
  "delayInterval (resolveDefaultProps p) =
     (if delayInterval p = Undefined then Val 10000 else delayInterval p)"
  by (simp_all add: resolveDefaultProps_def)

lemma constructor_instance:
  "props (fst (constructor p h)) = p \<and> interval (fst (constructor p h)) = None"
  by (cases "optionalFilters p") (simp_all add: constructor_def)

subsection \<open>Mounting and unmounting\<close>

text \<open>
  Claim C2 says that an absent refresh interval arms no timer. A caller who leaves
  \<open>delayInterval\<close> out gets the default 10000: mounting with a fetch function arms a
  timer of 10000 ms, and after 50000 ms the fetch function has run 6 times.
\<close>

theorem mount_absent_interval_counterexample:
  "delayInterval fetchOnlyProps = Undefined
   \<and> fetchListActionCreator fetchOnlyProps = Val ()
   \<and> timers (snd (snd (mount fetchOnlyProps (heapWith riskSpec) idleWorld))) =
       [\<lparr>handle = 1, period = 10000, due = 10000\<rparr>]
   \<and> fetchCount (snd (snd (mount fetchOnlyProps (heapWith riskSpec) idleWorld))) = 1
   \<and> fetchCount (advance 50000 (snd (snd (mount fetchOnlyProps (heapWith riskSpec) idleWorld)))) = 6"
  by (simp add: mount_def constructor_def resolveDefaultProps_def fetchOnlyProps_def
      componentDidMount_def mountOtherActions_def setInterval_def idleWorld_def
      fetchCount_def advance_def firings_def)

text \<open>
  Claim C2, amended. With a fetch function, if the \<open>delayInterval\<close> that
  \<open>componentDidMount\<close> reads is undefined, null or at most 0, the fetch function is
  called exactly once, no timer is armed and \<open>this.interval\<close> is not assigned; from a
  world without timers the number of fetches is still one more than before after any
  time. The same holds for mounting from the caller's props when the caller passes
  null or a number at most 0. A \<open>delayInterval\<close> the caller leaves out becomes 10000
  before the component sees it.
\<close>

theorem componentDidMount_single_fetch:
  assumes "fetchListActionCreator p = Val f"
  shows "(props c = p \<and> (delayInterval p = Undefined \<or> delayInterval p = Null
            \<or> (\<exists>d. delayInterval p = Val d \<and> d \<le> 0)) \<longrightarrow>
          fetchCount (snd (snd (componentDidMount c w))) = Suc (fetchCount w)
          \<and> timers (snd (snd (componentDidMount c w))) = timers w
          \<and> interval (fst (snd (componentDidMount c w))) = interval c
          \<and> (timers w = [] \<longrightarrow>
               fetchCount (advance e (snd (snd (componentDidMount c w)))) = Suc (fetchCount w)))
    \<and> (delayInterval p = Null \<or> (\<exists>d. delayInterval p = Val d \<and> d \<le> 0) \<longrightarrow>
          fetchCount (snd (snd (mount p h w))) = Suc (fetchCount w)
          \<and> timers (snd (snd (mount p h w))) = timers w
          \<and> interval (fst (snd (mount p h w))) = None
          \<and> (timers w = [] \<longrightarrow>
               fetchCount (advance e (snd (snd (mount p h w)))) = Suc (fetchCount w)))
    \<and> (delayInterval p = Undefined \<longrightarrow> delayInterval (resolveDefaultProps p) = Val 10000)"
proof -
  have direct: "fetchCount (snd (snd (componentDidMount c w))) = Suc (fetchCount w)
          \<and> timers (snd (snd (componentDidMount c w))) = timers w
          \<and> interval (fst (snd (componentDidMount c w))) = interval c
          \<and> (timers w = [] \<longrightarrow>
               fetchCount (advance e (snd (snd (componentDidMount c w)))) = Suc (fetchCount w))"
    if pc: "fetchListActionCreator (props c) = Val f"
      and off: "delayInterval (props c) = Undefined \<or> delayInterval (props c) = Null
            \<or> (\<exists>d. delayInterval (props c) = Val d \<and> d \<le> 0)"
    for c :: "'a component"
  proof -
    obtain err c' w' where run: "componentDidMount c w = (err, c', w')"
      by (cases "componentDidMount c w") auto
    from off have "fetchListActionCreator (props c) = Undefined
      \<or> fetchListActionCreator (props c) = Null
      \<or> delayInterval (props c) = Undefined \<or> delayInterval (props c) = Null
      \<or> (\<exists>d. delayInterval (props c) = Val d \<and> d \<le> 0)"
      by blast
    from componentDidMount_no_timer [OF run this] pc
    have "c' = c" "timers w' = timers w" "fetchCount w' = Suc (fetchCount w)"
      by simp_all
    then show ?thesis by (simp add: run advance_idle)
  qed
  have first: "props c = p \<and> (delayInterval p = Undefined \<or> delayInterval p = Null
            \<or> (\<exists>d. delayInterval p = Val d \<and> d \<le> 0)) \<longrightarrow>
          fetchCount (snd (snd (componentDidMount c w))) = Suc (fetchCount w)
          \<and> timers (snd (snd (componentDidMount c w))) = timers w
          \<and> interval (fst (snd (componentDidMount c w))) = interval c
          \<and> (timers w = [] \<longrightarrow>
               fetchCount (advance e (snd (snd (componentDidMount c w)))) = Suc (fetchCount w))"
    using direct [of c] assms by blast
  have second: "delayInterval p = Null \<or> (\<exists>d. delayInterval p = Val d \<and> d \<le> 0) \<longrightarrow>
          fetchCount (snd (snd (mount p h w))) = Suc (fetchCount w)
          \<and> timers (snd (snd (mount p h w))) = timers w
          \<and> interval (fst (snd (mount p h w))) = None
          \<and> (timers w = [] \<longrightarrow>
               fetchCount (advance e (snd (snd (mount p h w)))) = Suc (fetchCount w))"
  proof
    let ?c = "fst (constructor (resolveDefaultProps p) h)"
    assume off: "delayInterval p = Null \<or> (\<exists>d. delayInterval p = Val d \<and> d \<le> 0)"
    have pc: "props ?c = resolveDefaultProps p" and fresh: "interval ?c = None"
      using constructor_instance [of "resolveDefaultProps p" h] by simp_all
    from off have "delayInterval (props ?c) = Undefined \<or> delayInterval (props ?c) = Null
            \<or> (\<exists>d. delayInterval (props ?c) = Val d \<and> d \<le> 0)"
      by (auto simp add: pc resolveDefaultProps_fields)
    moreover have "fetchListActionCreator (props ?c) = Val f"
      by (simp add: pc resolveDefaultProps_fields assms)
    ultimately show "fetchCount (snd (snd (mount p h w))) = Suc (fetchCount w)
          \<and> timers (snd (snd (mount p h w))) = timers w
          \<and> interval (fst (snd (mount p h w))) = None
          \<and> (timers w = [] \<longrightarrow>
               fetchCount (advance e (snd (snd (mount p h w)))) = Suc (fetchCount w))"
      using direct [of ?c] fresh by (simp add: mount_def)
  qed
  have third: "delayInterval p = Undefined \<longrightarrow> delayInterval (resolveDefaultProps p) = Val 10000"
    by (simp add: resolveDefaultProps_fields)
  from first second third show ?thesis by blast
qed

theorem componentDidMount_single_fetch_witness:
  "fetchCount (snd (snd (componentDidMount (instanceOf fetchOnlyProps []) idleWorld))) = 1
   \<and> timers (snd (snd (componentDidMount (instanceOf fetchOnlyProps []) idleWorld))) = []
   \<and> fetchCount (advance 50000
        (snd (snd (componentDidMount (instanceOf fetchOnlyProps []) idleWorld)))) = 1
   \<and> fetchCount (advance 50000 (snd (snd (mount (fetchOnlyProps\<lparr>delayInterval := Val 0\<rparr>)
        (heapWith riskSpec) idleWorld)))) = 1
   \<and> timers (snd (snd (mount (fetchOnlyProps\<lparr>delayInterval := Val 0\<rparr>)
        (heapWith riskSpec) idleWorld))) = []"
proof -
  have given: "fetchListActionCreator fetchOnlyProps = Val ()"
    "fetchListActionCreator (fetchOnlyProps\<lparr>delayInterval := Val 0\<rparr>) = Val ()"
    "props (instanceOf fetchOnlyProps []) = fetchOnlyProps"
    "delayInterval fetchOnlyProps = Undefined"
    "delayInterval (fetchOnlyProps\<lparr>delayInterval := Val 0\<rparr>) = Val 0"
    "timers idleWorld = []" "fetchCount idleWorld = 0"
    by (simp_all add: fetchOnlyProps_def instanceOf_def idleWorld_def fetchCount_def)
  from componentDidMount_single_fetch [OF given(1),
      where c = "instanceOf fetchOnlyProps []" and w = idleWorld and e = 50000]
    componentDidMount_single_fetch [OF given(2),
      where w = idleWorld and e = 50000 and h = "heapWith riskSpec"]
    given
  show ?thesis by simp
qed

text \<open>
  Claim C4. After \<open>componentDidMount\<close> in a world with no timer, any time later,
  \<open>componentWillUnmount\<close> leaves no timer armed and makes no call itself, so the
  number of fetches stays what it was at the unmount however long one waits. When no
  timer was armed, and when \<open>componentDidMount\<close> never ran (a new instance),
  \<open>componentWillUnmount\<close> changes nothing; it cannot throw.
\<close>

theorem componentWillUnmount_stops:
  assumes "timers w = []" and "componentDidMount c w = (err, c', w')"
  shows "timers (componentWillUnmount c' (advance e1 w')) = []
    \<and> calls (componentWillUnmount c' (advance e1 w')) = calls (advance e1 w')
    \<and> fetchCount (advance e2 (componentWillUnmount c' (advance e1 w'))) =
        fetchCount (advance e1 w')
    \<and> (timers w' = [] \<longrightarrow> componentWillUnmount c' w' = w')
    \<and> (interval c = None \<longrightarrow> componentWillUnmount c w = w)
    \<and> componentWillUnmount (fst (constructor p h)) w = w"
proof -
  let ?w3 = "componentWillUnmount c' (advance e1 w')"
  have cleared: "timers ?w3 = []"
  proof (cases "\<exists>f d. fetchListActionCreator (props c) = Val f
      \<and> delayInterval (props c) = Val d \<and> 0 < d")
    case True
    then obtain f d where "fetchListActionCreator (props c) = Val f"
      "delayInterval (props c) = Val d" "0 < d" by blast
    from componentDidMount_timer [OF assms(2) this] assms(1)
    have c': "interval c' = Some (nextHandle w)"
      and "map handle (timers w') = [nextHandle w]" by simp_all
    then have "map handle (timers (advance e1 w')) = [nextHandle w]"
      by (simp only: handles_advance)
    then have "map handle (timers ?w3) = []"
      by (simp add: componentWillUnmount_def c' clearInterval_handles)
    then show ?thesis by simp
  next
    case False
    then have "fetchListActionCreator (props c) = Undefined
      \<or> fetchListActionCreator (props c) = Null
      \<or> delayInterval (props c) = Undefined \<or> delayInterval (props c) = Null
      \<or> (\<exists>d. delayInterval (props c) = Val d \<and> d \<le> 0)"
      by (cases "fetchListActionCreator (props c)"; cases "delayInterval (props c)")
        (auto simp add: not_less)
    from componentDidMount_no_timer [OF assms(2) this] assms(1)
    have "timers w' = []" by simp
    then have "timers (advance e1 w') = []" by (simp add: advance_def)
    then show ?thesis
      by (cases "interval c'") (simp_all add: componentWillUnmount_def clearInterval_def)
  qed
  have log: "calls ?w3 = calls (advance e1 w')"
    by (simp add: componentWillUnmount_def clearInterval_calls)
  then have "fetchCount ?w3 = fetchCount (advance e1 w')"
    by (simp add: fetchCount_def)
  with cleared have quiet: "fetchCount (advance e2 ?w3) = fetchCount (advance e1 w')"
    by (simp add: advance_idle)
  have idle: "timers w' = [] \<longrightarrow> componentWillUnmount c' w' = w'"
    by (cases "interval c'") (simp_all add: componentWillUnmount_def clearInterval_def)
  have never: "interval c = None \<longrightarrow> componentWillUnmount c w = w"
    by (simp add: componentWillUnmount_def clearInterval_def)
  have new: "componentWillUnmount (fst (constructor p h)) w = w"
    by (simp add: componentWillUnmount_def clearInterval_def constructor_instance)
  from cleared log quiet idle never new show ?thesis by simp
qed

theorem componentWillUnmount_stops_witness:
  "timers idleWorld = []
   \<and> timers (snd (snd (componentDidMount (instanceOf sampleProps [0]) idleWorld))) =
       [\<lparr>handle = 1, period = 1000, due = 1000\<rparr>]
   \<and> fetchCount (advance 2500
       (snd (snd (componentDidMount (instanceOf sampleProps [0]) idleWorld)))) = 3
   \<and> fetchCount (advance 10000 (componentWillUnmount
       (fst (snd (componentDidMount (instanceOf sampleProps [0]) idleWorld)))
       (advance 2500 (snd (snd (componentDidMount (instanceOf sampleProps [0]) idleWorld)))))) = 3
   \<and> componentWillUnmount (instanceOf sampleProps [0]) idleWorld = idleWorld"
proof -
  have idle: "timers idleWorld = []" and fresh: "interval (instanceOf sampleProps [0]) = None"
    by (simp_all add: idleWorld_def instanceOf_def)
  have armed: "timers (snd (snd (componentDidMount (instanceOf sampleProps [0]) idleWorld))) =
       [\<lparr>handle = 1, period = 1000, due = 1000\<rparr>]"
    and ticks: "fetchCount (advance 2500
       (snd (snd (componentDidMount (instanceOf sampleProps [0]) idleWorld)))) = 3"
    by (simp_all add: componentDidMount_def mountOtherActions_def setInterval_def
        instanceOf_def sampleProps_def idleWorld_def fetchCount_def advance_def firings_def)
  have run: "componentDidMount (instanceOf sampleProps [0]) idleWorld =
      (fst (componentDidMount (instanceOf sampleProps [0]) idleWorld),
       fst (snd (componentDidMount (instanceOf sampleProps [0]) idleWorld)),
       snd (snd (componentDidMount (instanceOf sampleProps [0]) idleWorld)))"
    by simp
  from componentWillUnmount_stops [OF idle run, where ?e1.0 = 2500 and ?e2.0 = 10000
      and p = sampleProps and h = "heapWith riskSpec"]
    idle fresh armed ticks
  show ?thesis by simp
qed

text \<open>
  Claim C8. Without \<open>fetchListActionCreator\<close>, \<open>componentDidMount\<close> makes no
  fetch and arms no timer, whatever \<open>delayInterval\<close> is; it throws only when
  \<open>onMountOtherActionCreators\<close> is \<open>null\<close>, and with that prop missing too it
  does nothing at all. Without \<open>optionalFilters\<close> the constructor makes no entries
  and leaves the store alone; without \<open>filters\<close> and with no entries
  \<open>applyFilters\<close> returns the array it was given.
\<close>

theorem missing_inputs_noop:
  "(fetchListActionCreator (props c) = Undefined \<longrightarrow>
      fst (snd (componentDidMount c w)) = c
      \<and> timers (snd (snd (componentDidMount c w))) = timers w
      \<and> nextHandle (snd (snd (componentDidMount c w))) = nextHandle w
      \<and> fetchCount (snd (snd (componentDidMount c w))) = fetchCount w
      \<and> (fst (componentDidMount c w) = None \<longleftrightarrow> onMountOtherActionCreators (props c) \<noteq> Null))
   \<and> (fetchListActionCreator (props c) = Undefined
        \<and> onMountOtherActionCreators (props c) = Undefined \<longrightarrow>
      componentDidMount c w = (None, c, w))
   \<and> (optionalFilters p = Undefined \<longrightarrow>
      constructor p h = (\<lparr>props = p, state_filters = [], interval = None\<rparr>, h))
   \<and> (filters (props c) = Undefined \<and> state_filters c = [] \<longrightarrow>
      applyFilters c list h = (list, h))"
proof -
  have quiet: "fetchListActionCreator (props c) = Undefined \<longrightarrow>
      fst (snd (componentDidMount c w)) = c
      \<and> timers (snd (snd (componentDidMount c w))) = timers w
      \<and> nextHandle (snd (snd (componentDidMount c w))) = nextHandle w
      \<and> fetchCount (snd (snd (componentDidMount c w))) = fetchCount w
      \<and> (fst (componentDidMount c w) = None \<longleftrightarrow> onMountOtherActionCreators (props c) \<noteq> Null)"
  proof
    assume none: "fetchListActionCreator (props c) = Undefined"
    obtain err c' w' where run: "componentDidMount c w = (err, c', w')"
      by (cases "componentDidMount c w") auto
    with none have "mountOtherActions c w = (err, c', w')"
      by (simp add: componentDidMount_def)
    from mountOtherActions_world [OF this]
    show "fst (snd (componentDidMount c w)) = c
      \<and> timers (snd (snd (componentDidMount c w))) = timers w
      \<and> nextHandle (snd (snd (componentDidMount c w))) = nextHandle w
      \<and> fetchCount (snd (snd (componentDidMount c w))) = fetchCount w
      \<and> (fst (componentDidMount c w) = None \<longleftrightarrow> onMountOtherActionCreators (props c) \<noteq> Null)"
      by (simp add: run)
  qed
  have noop: "fetchListActionCreator (props c) = Undefined
        \<and> onMountOtherActionCreators (props c) = Undefined \<longrightarrow>
      componentDidMount c w = (None, c, w)"
    by (simp add: componentDidMount_def mountOtherActions_def)
  have init: "optionalFilters p = Undefined \<longrightarrow>
      constructor p h = (\<lparr>props = p, state_filters = [], interval = None\<rparr>, h)"
    by (simp add: constructor_def)
  have show_all: "filters (props c) = Undefined \<and> state_filters c = [] \<longrightarrow>
      applyFilters c list h = (list, h)"
    by (simp add: applyFilters_def mandatoryFilters_def enabledFilters_def
        applyFiltersHelper.simps)
  from quiet noop init show_all show ?thesis by blast
qed

theorem missing_inputs_noop_witness:
  "fetchListActionCreator (props (instanceOf bareProps [])) = Undefined
   \<and> componentDidMount (instanceOf bareProps []) idleWorld =
       (None, instanceOf bareProps [], idleWorld)
   \<and> componentDidMount (instanceOf bareProps []) (advance 50000 idleWorld) =
       (None, instanceOf bareProps [], advance 50000 idleWorld)
   \<and> constructor bareProps (heapWith riskSpec) = (instanceOf bareProps [], heapWith riskSpec)
   \<and> applyFilters (instanceOf bareProps []) 0 (heapWith riskSpec) = (0, heapWith riskSpec)"
proof -
  have given: "fetchListActionCreator (props (instanceOf bareProps [])) = Undefined"
    "onMountOtherActionCreators (props (instanceOf bareProps [])) = Undefined"
    "optionalFilters bareProps = Undefined"
    "filters (props (instanceOf bareProps [])) = Undefined"
    "state_filters (instanceOf bareProps []) = []"
    by (simp_all add: instanceOf_def bareProps_def)
  from missing_inputs_noop [where c = "instanceOf bareProps []" and w = idleWorld
      and p = bareProps and h = "heapWith riskSpec" and list = 0]
    missing_inputs_noop [where c = "instanceOf bareProps []" and w = "advance 50000 idleWorld"
      and p = bareProps and h = "heapWith riskSpec" and list = 0]
    given
  show ?thesis by (simp add: instanceOf_def)
qed

end
